theory Spec2Isabelle
  imports Main "HOL-Library.Sublist"
begin

section \<open>Data model\<close>

text \<open>
  The Python code passes file records around as dictionaries whose keys are the
  fields requested from the Drive API (\<^verbatim>\<open>id\<close>, \<^verbatim>\<open>name\<close>, \<^verbatim>\<open>mimeType\<close>, ...), to which
  \<^verbatim>\<open>collect_all.py\<close> later adds \<^verbatim>\<open>content\<close> and \<^verbatim>\<open>created_by\<close>. A dictionary is
  modelled as a record of optional fields: \<open>None\<close> is an absent key. The values have
  the types of the Drive API schema (strings, a list of strings for \<^verbatim>\<open>parents\<close>).
  \<^verbatim>\<open>content\<close> and \<^verbatim>\<open>created_by\<close> may hold Python's \<^verbatim>\<open>None\<close>, hence the second option:
  \<open>None\<close> is an absent key, \<open>Some None\<close> is the key bound to \<^verbatim>\<open>None\<close>.
\<close>

record file_info =
  file_id :: "string option"
  name :: "string option"
  mimeType :: "string option"
  createdTime :: "string option"
  modifiedTime :: "string option"
  size_bytes :: "string option"
  webViewLink :: "string option"
  owners :: "string list option"
  parents :: "string list option"
  driveId :: "string option"
  shared :: "bool option"
  content :: "string option option"
  created_by :: "string option option"

definition empty_dict :: file_info where
  "empty_dict = \<lparr> file_id = None, name = None, mimeType = None, createdTime = None,
     modifiedTime = None, size_bytes = None, webViewLink = None, owners = None,
     parents = None, driveId = None, shared = None, content = None, created_by = None \<rparr>"

text \<open>The Python exceptions the modelled code can meet. Every one of them is a subclass
  of \<^verbatim>\<open>Exception\<close>; only \<open>HttpError\<close> is caught by \<^verbatim>\<open>except HttpError\<close>.\<close>

datatype exn = HttpError | KeyError | IndexError | ValueError | TypeError | OtherException

section \<open>The persisted store (\<^verbatim>\<open>collect_all.py\<close>)\<close>

text \<open>
  A collection is the list of its documents. The filter \<^verbatim>\<open>{"parents.0": fid}\<close> selects the
  documents whose \<^verbatim>\<open>parents\<close> array has \<open>fid\<close> as its first element.
\<close>

definition first_parent :: "file_info \<Rightarrow> string option" where
  "first_parent d = (case parents d of Some (p # _) \<Rightarrow> Some p | _ \<Rightarrow> None)"

definition update_many :: "string \<Rightarrow> string option \<Rightarrow> file_info list \<Rightarrow> file_info list" where
  "update_many fid v coll =
     map (\<lambda>d. if first_parent d = Some fid then d\<lparr>created_by := Some v\<rparr> else d) coll"

text \<open>
  \<^verbatim>\<open>update_created_by_in_mongo(distinct_ids, idmap)\<close>: one \<^verbatim>\<open>update_many\<close> per id, in order.
  \<^verbatim>\<open>idmap[fid]\<close> raises \<^verbatim>\<open>KeyError\<close> for a missing key; the updates already applied stay in
  the store, so the function returns the store together with the exception, if any.
\<close>

fun update_created_by_in_mongo ::
  "string list \<Rightarrow> (string \<rightharpoonup> string option) \<Rightarrow> file_info list \<Rightarrow> file_info list \<times> exn option" where
  "update_created_by_in_mongo [] idmap coll = (coll, None)"
| "update_created_by_in_mongo (fid # rest) idmap coll =
     (case idmap fid of
        None \<Rightarrow> (coll, Some KeyError)
      | Some v \<Rightarrow> update_created_by_in_mongo rest idmap (update_many fid v coll))"

section \<open>Joining contents to records (\<^verbatim>\<open>collect_all.py\<close>)\<close>

text \<open>
  \<^verbatim>\<open>add_contents_to_files(collected_files, c_files_shared)\<close>. The loop runs over the indices
  of \<^verbatim>\<open>collected_files\<close>; the model walks both lists together. \<^verbatim>\<open>collected_files[i]["name"]\<close>
  is evaluated first and raises \<^verbatim>\<open>KeyError\<close> when the key is absent; then
  \<^verbatim>\<open>c_files_shared[i]\<close> raises \<^verbatim>\<open>IndexError\<close> when the second list is too short. A tuple
  of \<^verbatim>\<open>c_files_shared\<close> is a pair (name or \<^verbatim>\<open>None\<close>, content or \<^verbatim>\<open>None\<close>).
\<close>

fun add_contents_to_files ::
  "file_info list \<Rightarrow> (string option \<times> string option) list \<Rightarrow> exn + file_info list" where
  "add_contents_to_files [] cs = Inr []"
| "add_contents_to_files (f # fs) cs =
     (case name f of
        None \<Rightarrow> Inl KeyError
      | Some n \<Rightarrow>
          (case cs of
             [] \<Rightarrow> Inl IndexError
           | c # cs' \<Rightarrow>
               (case add_contents_to_files fs cs' of
                  Inl e \<Rightarrow> Inl e
                | Inr fs' \<Rightarrow>
                    Inr ((if fst c = Some n then f\<lparr>content := Some (snd c)\<rparr> else f) # fs'))))"

section \<open>The remote store\<close>

text \<open>
  The Drive service is outside the program. Every request is one of three calls; the
  service answers a call with a response or raises. Its answer may depend on the calls
  made before (a listing that fails once and succeeds later, a folder that changes), so
  the service is a function of the history of calls, and the history is the state the
  program threads through: every modelled function takes the calls made so far and
  returns them extended by its own.
\<close>

datatype call =
    FilesGet string
  | FilesList string "string option"
  | ExportMedia string string

record list_response =
  files :: "file_info list option"
  nextPageToken :: "string option"

record service =
  files_get :: "call list \<Rightarrow> string \<Rightarrow> exn + file_info"
  files_list :: "call list \<Rightarrow> string \<Rightarrow> string option \<Rightarrow> exn + list_response"
  export_media :: "call list \<Rightarrow> string \<Rightarrow> string \<Rightarrow> exn + string"

text \<open>Python truth values: \<^verbatim>\<open>None\<close>, the empty string, the empty list and the empty
  dictionary are false.\<close>

definition truthy_str :: "string option \<Rightarrow> bool" where
  "truthy_str s = (case s of None \<Rightarrow> False | Some t \<Rightarrow> t \<noteq> [])"

definition truthy_list :: "'a list option \<Rightarrow> bool" where
  "truthy_list xs = (case xs of None \<Rightarrow> False | Some ys \<Rightarrow> ys \<noteq> [])"

definition truthy_dict :: "file_info option \<Rightarrow> bool" where
  "truthy_dict d = (case d of None \<Rightarrow> False | Some f \<Rightarrow> f \<noteq> empty_dict)"

text \<open>\<^verbatim>\<open>response.get('files', [])\<close>\<close>

definition files_of :: "list_response \<Rightarrow> file_info list" where
  "files_of response = (case files response of None \<Rightarrow> [] | Some fs \<Rightarrow> fs)"

section \<open>Strings\<close>

text \<open>A string in single quotes, as the f-strings of the queries write it.\<close>

definition quoted :: "string \<Rightarrow> string" where
  "quoted s = CHR 0x27 # s @ [CHR 0x27]"

text \<open>\<^verbatim>\<open>sep.join(xs)\<close>\<close>

fun join :: "string \<Rightarrow> string list \<Rightarrow> string" where
  "join sep [] = []"
| "join sep [x] = x"
| "join sep (x # y # ys) = x @ sep @ join sep (y # ys)"

section \<open>The standard library\<close>

text \<open>
  The functions of the standard library that the code calls are parameters of the model.
  \<^verbatim>\<open>s.lower()\<close> is one of them: it follows the Unicode case mapping, in which the lower
  case of a letter can depend on its neighbours, so it is a function of the whole string
  and no map over its characters (a string of the model is the UTF-8 encoding of the
  Python string). The others are those of the \<^verbatim>\<open>datetime\<close> module:
  \<^verbatim>\<open>datetime.strptime(s, '%Y-%m-%d')\<close>, which raises for a string it cannot parse,
  \<^verbatim>\<open>datetime.now()\<close>, \<^verbatim>\<open>d - timedelta(days=k)\<close> and \<^verbatim>\<open>d.strftime('%Y-%m-%d')\<close>. Of a
  \<^verbatim>\<open>datetime\<close> the code reads year, month and day only.
\<close>

type_synonym datetime = "nat \<times> nat \<times> nat"

record env =
  str_lower :: "string \<Rightarrow> string"
  strptime :: "string \<Rightarrow> exn + datetime"
  now :: datetime
  minus_days :: "datetime \<Rightarrow> nat \<Rightarrow> datetime"
  strftime :: "datetime \<Rightarrow> string"

section \<open>Reading contents (\<^verbatim>\<open>google_drive_reader.py\<close>)\<close>

text \<open>\<^verbatim>\<open>get_file_metadata\<close> catches \<^verbatim>\<open>HttpError\<close> only and returns \<^verbatim>\<open>None\<close> for it; any other
  exception leaves the method.\<close>

definition get_file_metadata ::
  "service \<Rightarrow> string \<Rightarrow> call list \<Rightarrow> (exn + file_info option) \<times> call list" where
  "get_file_metadata svc fid log =
     (case files_get svc log fid of
        Inl e \<Rightarrow> (if e = HttpError then Inr None else Inl e, log @ [FilesGet fid])
      | Inr f \<Rightarrow> (Inr (Some f), log @ [FilesGet fid]))"

text \<open>
  \<^verbatim>\<open>read_google_doc\<close> and \<^verbatim>\<open>read_google_sheet\<close> export the file (as \<^verbatim>\<open>text/plain\<close>, as
  \<^verbatim>\<open>text/csv\<close>), download it and decode it as UTF-8. The export call of the model stands
  for the three steps: it answers with the decoded text or with the exception one of them
  raised. \<^verbatim>\<open>HttpError\<close> is caught and gives \<^verbatim>\<open>None\<close>.
\<close>

definition read_export ::
  "service \<Rightarrow> string \<Rightarrow> string \<Rightarrow> call list \<Rightarrow> (exn + string option) \<times> call list" where
  "read_export svc fid mime log =
     (case export_media svc log fid mime of
        Inl e \<Rightarrow> (if e = HttpError then Inr None else Inl e, log @ [ExportMedia fid mime])
      | Inr text \<Rightarrow> (Inr (Some text), log @ [ExportMedia fid mime]))"

definition read_google_doc ::
  "service \<Rightarrow> string \<Rightarrow> call list \<Rightarrow> (exn + string option) \<times> call list" where
  "read_google_doc svc fid log = read_export svc fid ''text/plain'' log"

definition read_google_sheet ::
  "service \<Rightarrow> string \<Rightarrow> call list \<Rightarrow> (exn + string option) \<times> call list" where
  "read_google_sheet svc fid log = read_export svc fid ''text/csv'' log"

definition read_file_content ::
  "service \<Rightarrow> string \<Rightarrow> call list \<Rightarrow> (exn + string option \<times> string option) \<times> call list" where
  "read_file_content svc fid log =
     (case get_file_metadata svc fid log of
        (Inl e, log1) \<Rightarrow> (Inl e, log1)
      | (Inr metadata, log1) \<Rightarrow>
          if \<not> truthy_dict metadata then (Inr (None, None), log1)
          else
            let file_name = (case name (the metadata) of None \<Rightarrow> ''Unknown'' | Some n \<Rightarrow> n);
                mime_type = (case mimeType (the metadata) of None \<Rightarrow> [] | Some m \<Rightarrow> m)
            in if mime_type = ''application/vnd.google-apps.document'' then
                 (case read_google_doc svc fid log1 of
                    (Inl e, log2) \<Rightarrow> (Inl e, log2)
                  | (Inr body, log2) \<Rightarrow> (Inr (Some file_name, body), log2))
               else if mime_type = ''application/vnd.google-apps.spreadsheet'' then
                 (case read_google_sheet svc fid log1 of
                    (Inl e, log2) \<Rightarrow> (Inl e, log2)
                  | (Inr body, log2) \<Rightarrow> (Inr (Some file_name, body), log2))
               else (Inr (Some file_name, None), log1))"

text \<open>\<^verbatim>\<open>read_multiple_files\<close>: every exception of an item is caught and recorded as
  \<^verbatim>\<open>(None, None)\<close>.\<close>

fun read_multiple_files ::
  "service \<Rightarrow> string list \<Rightarrow> call list \<Rightarrow> (string option \<times> string option) list \<times> call list" where
  "read_multiple_files svc [] log = ([], log)"
| "read_multiple_files svc (fid # rest) log =
     (case read_file_content svc fid log of
        (r, log1) \<Rightarrow>
          (case read_multiple_files svc rest log1 of
             (results, log2) \<Rightarrow>
               ((case r of Inl e \<Rightarrow> (None, None) | Inr t \<Rightarrow> t) # results, log2)))"

section \<open>Folder labels (\<^verbatim>\<open>collect_all.py\<close>)\<close>

text \<open>
  The loop shared by \<^verbatim>\<open>get_idmap\<close> and \<^verbatim>\<open>map_ids_to_names\<close>:
  \<^verbatim>\<open>filename = reader.read_files(fid)[0]; idmap[fid] = filename\<close>. For a string,
  \<^verbatim>\<open>read_files\<close> is \<^verbatim>\<open>read_file_content\<close>, and an exception of it leaves the loop.
\<close>

fun names_loop ::
  "service \<Rightarrow> string list \<Rightarrow> (string \<rightharpoonup> string option) \<Rightarrow> call list \<Rightarrow>
   (exn + (string \<rightharpoonup> string option)) \<times> call list" where
  "names_loop svc [] idmap log = (Inr idmap, log)"
| "names_loop svc (fid # rest) idmap log =
     (case read_file_content svc fid log of
        (Inl e, log1) \<Rightarrow> (Inl e, log1)
      | (Inr t, log1) \<Rightarrow> names_loop svc rest (idmap(fid \<mapsto> fst t)) log1)"

definition map_ids_to_names ::
  "service \<Rightarrow> string list \<Rightarrow> call list \<Rightarrow> (exn + (string \<rightharpoonup> string option)) \<times> call list" where
  "map_ids_to_names svc distinct_ids log = names_loop svc distinct_ids Map.empty log"

text \<open>The first loop of \<^verbatim>\<open>get_idmap\<close>: \<^verbatim>\<open>parents_ids.insert(0, shared_files[i]["parents"][0])\<close>.\<close>

fun parents_ids_loop :: "file_info list \<Rightarrow> string list \<Rightarrow> exn + string list" where
  "parents_ids_loop [] parents_ids = Inr parents_ids"
| "parents_ids_loop (f # fs) parents_ids =
     (case parents f of
        None \<Rightarrow> Inl KeyError
      | Some [] \<Rightarrow> Inl IndexError
      | Some (fid # _) \<Rightarrow> parents_ids_loop fs (fid # parents_ids))"

definition get_idmap ::
  "service \<Rightarrow> file_info list \<Rightarrow> call list \<Rightarrow> (exn + (string \<rightharpoonup> string option)) \<times> call list" where
  "get_idmap svc shared_files log =
     (case parents_ids_loop shared_files [] of
        Inl e \<Rightarrow> (Inl e, log)
      | Inr parents_tuple \<Rightarrow> names_loop svc parents_tuple Map.empty log)"

section \<open>Discovery (\<^verbatim>\<open>drive_flie_list.py\<close>)\<close>

definition verify_folder_access ::
  "service \<Rightarrow> string \<Rightarrow> call list \<Rightarrow> file_info option \<times> call list" where
  "verify_folder_access svc folder_id log =
     (case files_get svc log folder_id of
        Inl e \<Rightarrow> (None, log @ [FilesGet folder_id])
      | Inr folder \<Rightarrow> (Some folder, log @ [FilesGet folder_id]))"

definition subfolder_query :: "string \<Rightarrow> string" where
  "subfolder_query folder_id =
     quoted folder_id @ '' in parents and mimeType='' @
     quoted ''application/vnd.google-apps.folder'' @ '' and trashed=false''"

text \<open>
  \<^verbatim>\<open>get_all_subfolders\<close>. The remote tree and the number of pages of a listing are not
  bounded by the program, so the functions take fuel: it bounds how many requests may
  follow one another, page after page and level below level, and \<open>None\<close> means that
  the fuel ran out before the function returned. (The recursion limit of the interpreter
  is not modelled.)
  \<open>subfolders_pages\<close> is the \<^verbatim>\<open>while True\<close> loop and \<open>subfolders_each\<close> the \<^verbatim>\<open>for\<close> loop over
  the folders of one page; its flag tells that \<^verbatim>\<open>folder['id']\<close> raised \<^verbatim>\<open>KeyError\<close>, which
  the \<^verbatim>\<open>except\<close> of the \<^verbatim>\<open>while\<close> loop catches before it breaks. The recursive call catches
  every exception of its own.
\<close>

function (sequential) get_all_subfolders ::
      "nat \<Rightarrow> service \<Rightarrow> string \<Rightarrow> call list \<Rightarrow> (string list \<times> call list) option"
  and subfolders_pages ::
      "nat \<Rightarrow> service \<Rightarrow> string \<Rightarrow> string list \<Rightarrow> string option \<Rightarrow> call list \<Rightarrow>
       (string list \<times> call list) option"
  and subfolders_each ::
      "nat \<Rightarrow> service \<Rightarrow> file_info list \<Rightarrow> string list \<Rightarrow> call list \<Rightarrow>
       ((string list \<times> bool) \<times> call list) option"
where
  "get_all_subfolders n svc folder_id log =
     subfolders_pages n svc (subfolder_query folder_id) [] None log"
| "subfolders_pages 0 svc query subfolders page_token log = None"
| "subfolders_pages (Suc n) svc query subfolders page_token log =
     (case files_list svc log query page_token of
        Inl e \<Rightarrow> Some (subfolders, log @ [FilesList query page_token])
      | Inr response \<Rightarrow>
          (case subfolders_each n svc (files_of response) subfolders
                  (log @ [FilesList query page_token]) of
             None \<Rightarrow> None
           | Some ((subfolders', raised), log') \<Rightarrow>
               if raised then Some (subfolders', log')
               else if \<not> truthy_str (nextPageToken response) then Some (subfolders', log')
               else subfolders_pages n svc query subfolders' (nextPageToken response) log'))"
| "subfolders_each n svc [] subfolders log = Some ((subfolders, False), log)"
| "subfolders_each n svc (folder # rest) subfolders log =
     (case file_id folder of
        None \<Rightarrow> Some ((subfolders, True), log)
      | Some fid \<Rightarrow>
          (case get_all_subfolders n svc fid log of
             None \<Rightarrow> None
           | Some (below, log') \<Rightarrow> subfolders_each n svc rest (subfolders @ [fid] @ below) log'))"
  by pat_completeness auto
termination
  by (relation "measures
        [\<lambda>x. case x of Inl (n, _) \<Rightarrow> n | Inr (Inl (n, _)) \<Rightarrow> n | Inr (Inr (n, _)) \<Rightarrow> n,
         \<lambda>x. case x of Inl _ \<Rightarrow> 1 | Inr (Inl _) \<Rightarrow> 0
                 | Inr (Inr (_, _, fs, _)) \<Rightarrow> 2 + length fs]") auto

declare get_all_subfolders.simps [simp del]

text \<open>
  \<^verbatim>\<open>execute_search\<close>: the \<^verbatim>\<open>while True\<close> loop stands inside the \<^verbatim>\<open>try\<close>, so an exception
  of a request ends the loop and the function returns \<^verbatim>\<open>results\<close> as it is then. The fuel
  bounds the number of requests, as above.
\<close>

fun search_pages ::
  "nat \<Rightarrow> service \<Rightarrow> string \<Rightarrow> file_info list \<Rightarrow> string option \<Rightarrow> call list \<Rightarrow>
   (file_info list \<times> call list) option" where
  "search_pages 0 svc query results page_token log = None"
| "search_pages (Suc n) svc query results page_token log =
     (case files_list svc log query page_token of
        Inl e \<Rightarrow> Some (results, log @ [FilesList query page_token])
      | Inr response \<Rightarrow>
          if \<not> truthy_str (nextPageToken response)
          then Some (results @ files_of response, log @ [FilesList query page_token])
          else search_pages n svc query (results @ files_of response) (nextPageToken response)
                 (log @ [FilesList query page_token]))"

definition execute_search ::
  "nat \<Rightarrow> service \<Rightarrow> string \<Rightarrow> call list \<Rightarrow> (file_info list \<times> call list) option" where
  "execute_search n svc query log = search_pages n svc query [] None log"


text \<open>\<^verbatim>\<open>build_file_type_query\<close> and its table \<^verbatim>\<open>mime_type_map\<close>.\<close>

definition mime_is :: "string \<Rightarrow> string" where
  "mime_is m = ''mimeType='' @ quoted m"

definition mime_contains :: "string \<Rightarrow> string" where
  "mime_contains m = ''mimeType contains '' @ quoted m"

definition mime_type_map :: "(string \<times> string) list" where
  "mime_type_map =
     [(''pdf'', mime_is ''application/pdf''),
      (''doc'', mime_is ''application/msword''),
      (''docx'', mime_is ''application/vnd.openxmlformats-officedocument.wordprocessingml.document''),
      (''txt'', mime_is ''text/plain''),
      (''rtf'', mime_is ''application/rtf''),
      (''xls'', mime_is ''application/vnd.ms-excel''),
      (''xlsx'', mime_is ''application/vnd.openxmlformats-officedocument.spreadsheetml.sheet''),
      (''csv'', mime_is ''text/csv''),
      (''ppt'', mime_is ''application/vnd.ms-powerpoint''),
      (''pptx'', mime_is ''application/vnd.openxmlformats-officedocument.presentationml.presentation''),
      (''gdoc'', mime_is ''application/vnd.google-apps.document''),
      (''gsheet'', mime_is ''application/vnd.google-apps.spreadsheet''),
      (''gslide'', mime_is ''application/vnd.google-apps.presentation''),
      (''gform'', mime_is ''application/vnd.google-apps.form''),
      (''gdrawing'', mime_is ''application/vnd.google-apps.drawing''),
      (''image'', mime_contains ''image/''),
      (''jpg'', mime_is ''image/jpeg''),
      (''jpeg'', mime_is ''image/jpeg''),
      (''png'', mime_is ''image/png''),
      (''gif'', mime_is ''image/gif''),
      (''bmp'', mime_is ''image/bmp''),
      (''svg'', mime_is ''image/svg+xml''),
      (''webp'', mime_is ''image/webp''),
      (''video'', mime_contains ''video/''),
      (''mp4'', mime_is ''video/mp4''),
      (''avi'', mime_is ''video/x-msvideo''),
      (''mov'', mime_is ''video/quicktime''),
      (''wmv'', mime_is ''video/x-ms-wmv''),
      (''audio'', mime_contains ''audio/''),
      (''mp3'', mime_is ''audio/mpeg''),
      (''wav'', mime_is ''audio/wav''),
      (''zip'', mime_is ''application/zip''),
      (''rar'', mime_is ''application/x-rar-compressed''),
      (''7z'', mime_is ''application/x-7z-compressed''),
      (''tar'', mime_is ''application/x-tar''),
      (''gz'', mime_is ''application/gzip''),
      (''json'', mime_is ''application/json''),
      (''xml'', mime_is ''application/xml''),
      (''html'', mime_is ''text/html''),
      (''css'', mime_is ''text/css''),
      (''js'', mime_is ''application/javascript''),
      (''py'', mime_is ''text/x-python'')]"

definition build_file_type_query :: "env \<Rightarrow> string list \<Rightarrow> string option" where
  "build_file_type_query e types =
     (let queries =
            map (\<lambda>file_type.
                   let file_type_lower = str_lower e file_type
                   in case map_of mime_type_map file_type_lower of
                        Some q \<Rightarrow> q
                      | None \<Rightarrow> ''name contains '' @ quoted (''.'' @ file_type_lower))
                types
      in if queries \<noteq> [] then Some (join '' or '' queries) else None)"

text \<open>\<^verbatim>\<open>filter_by_exclude_keywords\<close>. \<open>should_exclude\<close> is the inner loop over the keywords:
  \<^verbatim>\<open>keyword.lower() in filename\<close> for some keyword.\<close>

definition should_exclude :: "env \<Rightarrow> string list \<Rightarrow> file_info \<Rightarrow> bool" where
  "should_exclude e keywords f =
     (let filename = str_lower e (case name f of None \<Rightarrow> [] | Some n \<Rightarrow> n)
      in list_ex (\<lambda>keyword. sublist (str_lower e keyword) filename) keywords)"

definition filter_by_exclude_keywords ::
  "env \<Rightarrow> file_info list \<Rightarrow> string list option \<Rightarrow> file_info list" where
  "filter_by_exclude_keywords e fs keywords =
     (if \<not> truthy_list keywords then fs
      else filter (\<lambda>f. \<not> should_exclude e (the keywords) f) fs)"

text \<open>
  The request of \<^verbatim>\<open>get_files_in_date_range\<close>. A date argument is \<^verbatim>\<open>None\<close>, a string or a
  \<^verbatim>\<open>datetime\<close>.
\<close>

datatype date_arg = NoDate | DateStr string | DateTime datetime

record request =
  folder_id :: "string option"
  start_date :: date_arg
  end_date :: date_arg
  search_type :: string
  recursive :: bool
  debug :: bool
  file_types :: "string list option"
  filename_keywords :: "string list option"
  exclude_keywords :: "string list option"

definition parse_date :: "env \<Rightarrow> date_arg \<Rightarrow> exn + datetime option" where
  "parse_date e d =
     (case d of
        NoDate \<Rightarrow> Inr None
      | DateTime t \<Rightarrow> Inr (Some t)
      | DateStr s \<Rightarrow> (case strptime e s of Inl err \<Rightarrow> Inl err | Inr t \<Rightarrow> Inr (Some t)))"

text \<open>The parts of a query that both branches of the search add after the dates: the file
  types and the file name keywords.\<close>

definition filter_parts ::
  "env \<Rightarrow> string list option \<Rightarrow> string list option \<Rightarrow> string list" where
  "filter_parts e types keywords =
     (if truthy_list types \<and> truthy_str (build_file_type_query e (the types))
      then [''('' @ the (build_file_type_query e (the types)) @ '')''] else []) @
     (if truthy_list keywords
      then [''('' @ join '' or '' (map (\<lambda>keyword. ''name contains '' @ quoted keyword) (the keywords)) @ '')'']
      else [])"

definition date_parts :: "string \<Rightarrow> string \<Rightarrow> string \<Rightarrow> string list" where
  "date_parts time_field start_date_str end_date_str =
     [time_field @ '' >= '' @ quoted start_date_str,
      time_field @ '' <= '' @ quoted end_date_str,
      ''trashed = false'']"

definition folder_query ::
  "env \<Rightarrow> string \<Rightarrow> string \<Rightarrow> string \<Rightarrow> string list option \<Rightarrow> string list option \<Rightarrow>
   string \<Rightarrow> string" where
  "folder_query e time_field start_date_str end_date_str types keywords fid =
     join '' and '' (date_parts time_field start_date_str end_date_str @
                     [quoted fid @ '' in parents''] @ filter_parts e types keywords)"

definition drive_query ::
  "env \<Rightarrow> string \<Rightarrow> string \<Rightarrow> string \<Rightarrow> string list option \<Rightarrow> string list option \<Rightarrow> string" where
  "drive_query e time_field start_date_str end_date_str types keywords =
     join '' and '' (date_parts time_field start_date_str end_date_str @
                     filter_parts e types keywords)"

text \<open>The loop over \<^verbatim>\<open>folders_to_search\<close>: one \<^verbatim>\<open>execute_search\<close> per folder, the results
  appended to \<^verbatim>\<open>all_results\<close>.\<close>

fun search_folders ::
  "nat \<Rightarrow> service \<Rightarrow> (string \<Rightarrow> string) \<Rightarrow> string list \<Rightarrow> file_info list \<Rightarrow> call list \<Rightarrow>
   (file_info list \<times> call list) option" where
  "search_folders n svc mk_query [] all_results log = Some (all_results, log)"
| "search_folders n svc mk_query (fid # rest) all_results log =
     (case execute_search n svc (mk_query fid) log of
        None \<Rightarrow> None
      | Some (results, log') \<Rightarrow> search_folders n svc mk_query rest (all_results @ results) log')"

text \<open>The loop that removes duplicates: \<^verbatim>\<open>file['id']\<close> raises \<^verbatim>\<open>KeyError\<close> for a record
  without an id.\<close>

fun remove_duplicates ::
  "file_info list \<Rightarrow> string set \<Rightarrow> file_info list \<Rightarrow> exn + file_info list" where
  "remove_duplicates [] seen unique_results = Inr unique_results"
| "remove_duplicates (f # fs) seen unique_results =
     (case file_id f of
        None \<Rightarrow> Inl KeyError
      | Some i \<Rightarrow>
          if i \<notin> seen then remove_duplicates fs (insert i seen) (unique_results @ [f])
          else remove_duplicates fs seen unique_results)"

text \<open>Lines 304 to 379 of \<^verbatim>\<open>get_files_in_date_range\<close>: the folders to search and the
  searches, which give \<^verbatim>\<open>all_results\<close>.\<close>

definition collect_results ::
  "env \<Rightarrow> nat \<Rightarrow> service \<Rightarrow> request \<Rightarrow> string \<Rightarrow> string \<Rightarrow> string \<Rightarrow> call list \<Rightarrow>
   (file_info list \<times> call list) option" where
  "collect_results e n svc req time_field start_date_str end_date_str log =
     (case (if truthy_str (folder_id req) then
              (if recursive req then
                 (case get_all_subfolders n svc (the (folder_id req)) log of
                    None \<Rightarrow> None
                  | Some (subfolders, log') \<Rightarrow> Some (the (folder_id req) # subfolders, log'))
               else Some ([the (folder_id req)], log))
            else Some ([], log)) of
        None \<Rightarrow> None
      | Some (folders_to_search, log1) \<Rightarrow>
          if folders_to_search \<noteq> [] then
            search_folders n svc
              (folder_query e time_field start_date_str end_date_str
                 (file_types req) (filename_keywords req))
              folders_to_search [] log1
          else
            execute_search n svc
              (drive_query e time_field start_date_str end_date_str
                 (file_types req) (filename_keywords req)) log1)"

text \<open>
  Lines 298 to 397 of \<^verbatim>\<open>get_files_in_date_range\<close>: the root folder is verified, the
  searches are run, duplicates are removed and the excluded names are filtered out. The
  result is \<open>None\<close> when the fuel ran out, otherwise the list the function returns or the
  exception that leaves it, with the calls made.
\<close>

definition search_in_range ::
  "env \<Rightarrow> nat \<Rightarrow> service \<Rightarrow> request \<Rightarrow> string \<Rightarrow> string \<Rightarrow> string \<Rightarrow> call list \<Rightarrow>
   ((exn + file_info list) \<times> call list) option" where
  "search_in_range e n svc req time_field start_date_str end_date_str log =
     (let verified = (if truthy_str (folder_id req)
                      then verify_folder_access svc (the (folder_id req)) log
                      else (None, log))
      in if truthy_str (folder_id req) \<and> \<not> truthy_dict (fst verified)
         then Some (Inr [], snd verified)
         else
           (case collect_results e n svc req time_field start_date_str end_date_str
                   (snd verified) of
              None \<Rightarrow> None
            | Some (all_results, log2) \<Rightarrow>
                (case remove_duplicates all_results {} [] of
                   Inl err \<Rightarrow> Some (Inl err, log2)
                 | Inr unique_results \<Rightarrow>
                     Some (Inr (if truthy_list (exclude_keywords req)
                                then filter_by_exclude_keywords e unique_results
                                       (exclude_keywords req)
                                else unique_results), log2))))"

text \<open>
  \<^verbatim>\<open>get_files_in_date_range\<close>: lines 267 to 284 parse the dates, set the defaults and choose
  the time field; an exception of \<^verbatim>\<open>strptime\<close> leaves the function there.
\<close>

definition get_files_in_date_range ::
  "env \<Rightarrow> nat \<Rightarrow> service \<Rightarrow> request \<Rightarrow> call list \<Rightarrow>
   ((exn + file_info list) \<times> call list) option" where
  "get_files_in_date_range e n svc req log =
     (case parse_date e (start_date req) of
        Inl err \<Rightarrow> Some (Inl err, log)
      | Inr start_opt \<Rightarrow>
     (case parse_date e (end_date req) of
        Inl err \<Rightarrow> Some (Inl err, log)
      | Inr end_opt \<Rightarrow>
          let end_d = (case end_opt of None \<Rightarrow> now e | Some d \<Rightarrow> d);
              start_d = (case start_opt of None \<Rightarrow> minus_days e end_d 7 | Some d \<Rightarrow> d);
              start_date_str = strftime e start_d @ ''T00:00:00'';
              end_date_str = strftime e end_d @ ''T23:59:59'';
              time_field = (if search_type req = ''modified'' then ''modifiedTime''
                            else ''createdTime'')
          in search_in_range e n svc req time_field start_date_str end_date_str log))"

section \<open>Notions of the properties\<close>

text \<open>
  The records of a list that are the first with their id, in the order of the list: the
  record at position \<open>i\<close> stays when no earlier position has the same id.
\<close>

definition first_seen :: "file_info list \<Rightarrow> file_info list" where
  "first_seen fs =
     map (\<lambda>i. fs ! i)
       (filter (\<lambda>i. \<forall>j<i. file_id (fs ! j) \<noteq> file_id (fs ! i)) [0..<length fs])"

text \<open>A record whose id the loop has not seen yet (records without id apart, for which
  the loop raises).\<close>

definition unseen :: "string set \<Rightarrow> file_info \<Rightarrow> bool" where
  "unseen seen g = (case file_id g of None \<Rightarrow> True | Some i \<Rightarrow> i \<notin> seen)"

text \<open>The lower case of \<open>keyword\<close> occurs as a substring in the lower case of \<open>s\<close>.\<close>

definition contains_lowered :: "env \<Rightarrow> string \<Rightarrow> string \<Rightarrow> bool" where
  "contains_lowered e keyword s = sublist (str_lower e keyword) (str_lower e s)"

text \<open>\<^verbatim>\<open>file.get('name', '')\<close>\<close>

definition name_of :: "file_info \<Rightarrow> string" where
  "name_of f = (case name f of None \<Rightarrow> [] | Some n \<Rightarrow> n)"

text \<open>The number of metadata requests for the id \<open>fid\<close> among the calls \<open>log\<close>.\<close>

definition lookups :: "string \<Rightarrow> call list \<Rightarrow> nat" where
  "lookups fid log = count_list log (FilesGet fid)"


subsection \<open>Runs of a paginated listing\<close>

text \<open>
  A run of a paginated listing is described by the responses \<open>rs\<close> of its requests, in
  order: request \<open>i\<close> carries the token of response \<open>i - 1\<close> (the first one carries
  \<open>first_token\<close>), and \<open>requests query first_token rs k\<close> are the first \<open>k\<close> requests.
\<close>

definition token_at :: "string option \<Rightarrow> list_response list \<Rightarrow> nat \<Rightarrow> string option" where
  "token_at first_token rs i = (if i = 0 then first_token else nextPageToken (rs ! (i - 1)))"

definition requests :: "string \<Rightarrow> string option \<Rightarrow> list_response list \<Rightarrow> nat \<Rightarrow> call list" where
  "requests query first_token rs k = map (\<lambda>i. FilesList query (token_at first_token rs i)) [0..<k]"

section \<open>Example inputs\<close>

text \<open>A record with an id, a name and parents, and metadata with an id, a name and a type.\<close>

definition mk_file :: "string \<Rightarrow> string \<Rightarrow> string list \<Rightarrow> file_info" where
  "mk_file i n ps = empty_dict\<lparr>file_id := Some i, name := Some n, parents := Some ps\<rparr>"

definition mk_meta :: "string \<Rightarrow> string \<Rightarrow> string \<Rightarrow> file_info" where
  "mk_meta i n m = empty_dict\<lparr>file_id := Some i, name := Some n, mimeType := Some m\<rparr>"

text \<open>
  A service for the reader: \<open>D1\<close> is a document that exports to \<^verbatim>\<open>hello\<close>, the export of the
  document \<open>E1\<close> raises an exception that is no \<^verbatim>\<open>HttpError\<close>, the export of the spreadsheet
  \<open>S1\<close> raises \<^verbatim>\<open>HttpError\<close>, and no other id has metadata.
\<close>

definition reader_service :: service where
  "reader_service =
     \<lparr> files_get = (\<lambda>log fid.
         if fid = ''D1'' then Inr (mk_meta ''D1'' ''notes'' ''application/vnd.google-apps.document'')
         else if fid = ''E1'' then Inr (mk_meta ''E1'' ''broken'' ''application/vnd.google-apps.document'')
         else if fid = ''S1'' then Inr (mk_meta ''S1'' ''table'' ''application/vnd.google-apps.spreadsheet'')
         else Inl HttpError),
       files_list = (\<lambda>log query page_token. Inl HttpError),
       export_media = (\<lambda>log fid mime.
         if fid = ''D1'' then Inr ''hello''
         else if fid = ''E1'' then Inl OtherException
         else Inl HttpError) \<rparr>"

definition page :: "file_info list \<Rightarrow> string option \<Rightarrow> list_response" where
  "page fs t = \<lparr> files = Some fs, nextPageToken = t \<rparr>"

text \<open>
  A service whose listings have two pages with continuation tokens \<^verbatim>\<open>t1\<close> and \<^verbatim>\<open>t2\<close>; the
  third request fails for the query \<^verbatim>\<open>flaky\<close> and is answered with a last page for every
  other query.
\<close>

definition paged_service :: service where
  "paged_service =
     \<lparr> files_get = (\<lambda>log fid. Inl HttpError),
       files_list = (\<lambda>log query page_token.
         if page_token = None then Inr (page [mk_file ''X1'' ''a'' [''P'']] (Some ''t1''))
         else if page_token = Some ''t1'' then Inr (page [mk_file ''X2'' ''b'' [''P'']] (Some ''t2''))
         else if query = ''flaky'' then Inl HttpError
         else Inr (page [mk_file ''X3'' ''c'' [''P'']] None)),
       export_media = (\<lambda>log fid mime. Inl HttpError) \<rparr>"

text \<open>A service with two folders, \<open>P\<close> named \<^verbatim>\<open>irene\<close> and \<open>Q\<close> named \<^verbatim>\<open>jaden\<close>.\<close>

definition label_service :: service where
  "label_service =
     \<lparr> files_get = (\<lambda>log fid.
         if fid = ''P'' then Inr (mk_meta ''P'' ''irene'' ''application/vnd.google-apps.folder'')
         else if fid = ''Q'' then Inr (mk_meta ''Q'' ''jaden'' ''application/vnd.google-apps.folder'')
         else Inl HttpError),
       files_list = (\<lambda>log query page_token. Inl HttpError),
       export_media = (\<lambda>log fid mime. Inl HttpError) \<rparr>"

text \<open>
  An example drive and a request for it. The environment knows the dates of the example
  and the lower case of the letters A to Z, which is what \<^verbatim>\<open>lower()\<close> gives for the names
  and keywords of the example: they are ASCII strings.
  The folder \<open>R\<close> lists its subfolder \<open>A\<close> on a first page and its subfolder \<open>B\<close> on a
  second one; neither has subfolders. The search over \<open>A\<close> finds \<open>X1\<close> and \<open>X2\<close>, the search
  over \<open>B\<close> finds \<open>X1\<close> again and \<open>X3\<close>, the search over \<open>R\<close> finds nothing. \<open>F\<close> is a PDF
  file, not a folder, and the search with \<open>F\<close> as parent finds \<open>X9\<close>.
\<close>

definition ascii_lower_char :: "char \<Rightarrow> char" where
  "ascii_lower_char c =
     (case map_of (zip ''ABCDEFGHIJKLMNOPQRSTUVWXYZ'' ''abcdefghijklmnopqrstuvwxyz'') c of
        Some d \<Rightarrow> d
      | None \<Rightarrow> c)"

definition ascii_lower :: "string \<Rightarrow> string" where
  "ascii_lower s = map ascii_lower_char s"

definition example_env :: env where
  "example_env =
     \<lparr> str_lower = ascii_lower,
       strptime = (\<lambda>s. if s = ''2025-11-01'' then Inr (2025, 11, 1)
                        else if s = ''2025-11-15'' then Inr (2025, 11, 15)
                        else Inl ValueError),
       now = (2025, 11, 20),
       minus_days = (\<lambda>d k. if d = (2025, 11, 20) \<and> k = 7 then (2025, 11, 13) else d),
       strftime = (\<lambda>d. if d = (2025, 11, 1) then ''2025-11-01''
                        else if d = (2025, 11, 15) then ''2025-11-15''
                        else if d = (2025, 11, 13) then ''2025-11-13''
                        else ''2025-11-20'') \<rparr>"

definition example_request :: request where
  "example_request =
     \<lparr> folder_id = Some ''R'', start_date = DateStr ''2025-11-01'',
       end_date = DateStr ''2025-11-15'', search_type = ''created'', recursive = True,
       debug = False, file_types = None, filename_keywords = None, exclude_keywords = None \<rparr>"

definition example_query :: "string \<Rightarrow> string" where
  "example_query fid =
     folder_query example_env ''createdTime'' ''2025-11-01T00:00:00'' ''2025-11-15T23:59:59''
       None None fid"

definition drive_service :: service where
  "drive_service =
     \<lparr> files_get = (\<lambda>log fid.
         if fid = ''R'' then Inr (mk_meta ''R'' ''shared'' ''application/vnd.google-apps.folder'')
         else if fid = ''F'' then Inr (mk_meta ''F'' ''report.pdf'' ''application/pdf'')
         else Inl HttpError),
       files_list = (\<lambda>log query page_token.
         if query = subfolder_query ''R'' then
           (if page_token = None then Inr (page [mk_file ''A'' ''irene'' [''R'']] (Some ''t''))
            else Inr (page [mk_file ''B'' ''jaden'' [''R'']] None))
         else if query = example_query ''A'' then
           Inr (page [mk_file ''X1'' ''Report.gdoc'' [''A'', ''B''],
                      mk_file ''X2'' ''Draft Report.gdoc'' [''A'']] None)
         else if query = example_query ''B'' then
           Inr (page [mk_file ''X1'' ''Report.gdoc'' [''A'', ''B''],
                      mk_file ''X3'' ''Notes.gdoc'' [''B'']] None)
         else if query = example_query ''F'' then
           Inr (page [mk_file ''X9'' ''stray.gdoc'' [''F'']] None)
         else Inr (page [] None)),
       export_media = (\<lambda>log fid mime. Inl HttpError) \<rparr>"

text \<open>What the example request finds in the example drive, and the calls it makes.\<close>

definition example_files :: "file_info list" where
  "example_files =
     [mk_file ''X1'' ''Report.gdoc'' [''A'', ''B''], mk_file ''X2'' ''Draft Report.gdoc'' [''A''],
      mk_file ''X3'' ''Notes.gdoc'' [''B'']]"

definition example_calls :: "call list" where
  "example_calls =
     [FilesGet ''R'',
      FilesList (subfolder_query ''R'') None, FilesList (subfolder_query ''A'') None,
      FilesList (subfolder_query ''R'') (Some ''t''), FilesList (subfolder_query ''B'') None,
      FilesList (example_query ''R'') None, FilesList (example_query ''A'') None,
      FilesList (example_query ''B'') None]"






section \<open>Properties of the store update\<close>

lemma first_parent_update [simp]:
  "first_parent (d\<lparr>created_by := v\<rparr>) = first_parent d"
  by (simp add: first_parent_def)

lemma update_many_idem:
  "update_many fid v (update_many fid v coll) = update_many fid v coll"
  by (induction coll) (simp_all add: update_many_def)

lemma update_many_commute_after:
  assumes "idmap fid = Some v"
  shows "fst (update_created_by_in_mongo ids idmap (update_many fid v coll)) =
         update_many fid v (fst (update_created_by_in_mongo ids idmap coll))"
  using assms
proof (induction ids arbitrary: coll)
  case Nil
  then show ?case by simp
next
  case (Cons a ids)
  show ?case
  proof (cases "idmap a")
    case None
    then show ?thesis by simp
  next
    case (Some w)
    have swap: "update_many a w (update_many fid v coll) = update_many fid v (update_many a w coll)"
      using Some Cons.prems
      by (cases "a = fid") (auto simp: update_many_def)
    show ?thesis
      using Some Cons.IH [OF Cons.prems, of "update_many a w coll"] swap by simp
  qed
qed

text \<open>
  C9. Running \<^verbatim>\<open>update_created_by_in_mongo\<close> a second time with the same ids and the same
  map leaves the collection as the first run left it, for every map and every collection
  (also when the run stops at a missing key).
\<close>

theorem update_created_by_in_mongo_idempotent:
  "fst (update_created_by_in_mongo ids idmap (fst (update_created_by_in_mongo ids idmap coll))) =
   fst (update_created_by_in_mongo ids idmap coll)"
proof (induction ids arbitrary: coll)
  case Nil
  then show ?case by simp
next
  case (Cons a ids)
  show ?case
  proof (cases "idmap a")
    case None
    then show ?thesis by simp
  next
    case (Some v)
    let ?c1 = "update_many a v coll"
    let ?r = "fst (update_created_by_in_mongo ids idmap ?c1)"
    have "fst (update_created_by_in_mongo ids idmap (update_many a v ?r)) =
          update_many a v (fst (update_created_by_in_mongo ids idmap ?r))"
      using Some by (rule update_many_commute_after)
    also have "\<dots> = update_many a v ?r"
      by (simp add: Cons.IH)
    also have "\<dots> = fst (update_created_by_in_mongo ids idmap (update_many a v ?c1))"
      using Some by (rule update_many_commute_after [symmetric])
    also have "\<dots> = ?r"
      by (simp add: update_many_idem)
    finally show ?thesis using Some by simp
  qed
qed

section \<open>Properties of joining contents to records\<close>

lemma add_contents_to_files_positions:
  "length fs = length cs \<Longrightarrow>
   (case add_contents_to_files fs cs of
      Inl e \<Rightarrow> e = KeyError \<and> (\<exists>f\<in>set fs. name f = None)
    | Inr res \<Rightarrow> length res = length fs \<and>
        (\<forall>i<length fs. res ! i =
           (if fst (cs ! i) = name (fs ! i) then (fs ! i)\<lparr>content := Some (snd (cs ! i))\<rparr>
            else fs ! i)))"
proof (induction fs cs rule: list_induct2)
  case Nil
  then show ?case by simp
next
  case (Cons f fs c cs)
  show ?case
  proof (cases "name f")
    case None
    then show ?thesis by simp
  next
    case (Some n)
    show ?thesis
    proof (cases "add_contents_to_files fs cs")
      case (Inl e)
      with Cons.IH Some show ?thesis by auto
    next
      case (Inr res)
      with Cons.IH Some show ?thesis
        by (auto simp: nth_Cons split: nat.splits)
    qed
  qed
qed

text \<open>
  C10. For lists of equal length, \<^verbatim>\<open>add_contents_to_files\<close> raises \<^verbatim>\<open>KeyError\<close> exactly when
  a record has no name, and otherwise returns a list of the same length in which the
  record at position \<open>i\<close> has its \<^verbatim>\<open>content\<close> set to the content of the tuple at \<open>i\<close> when
  its name equals the name of that tuple, and is the record as it was (its \<^verbatim>\<open>content\<close>
  as absent as before) when the names differ. In both cases every field other than
  \<^verbatim>\<open>content\<close> is as it was. (Where the function returns, every record has a name, so
  the equation of the two options below is the equality of the two names.)
\<close>

theorem add_contents_to_files_frame:
  "length fs = length cs \<Longrightarrow>
   (case add_contents_to_files fs cs of
      Inl e \<Rightarrow> e = KeyError \<and> (\<exists>f\<in>set fs. name f = None)
    | Inr res \<Rightarrow> length res = length fs \<and>
        (\<forall>i<length fs.
           res ! i = (if fst (cs ! i) = name (fs ! i)
                      then (fs ! i)\<lparr>content := Some (snd (cs ! i))\<rparr> else fs ! i) \<and>
           (res ! i)\<lparr>content := content (fs ! i)\<rparr> = fs ! i))"
  using add_contents_to_files_positions [of fs cs]
  by (auto split: sum.splits)

theorem add_contents_to_files_frame_witness:
  "length [mk_file ''X1'' ''a.gdoc'' [''P''], mk_file ''X2'' ''b.gdoc'' [''P'']] =
   length [(Some ''a.gdoc'', Some ''hello''), (Some ''other'', Some ''bye'')] \<and>
   add_contents_to_files
     [mk_file ''X1'' ''a.gdoc'' [''P''], mk_file ''X2'' ''b.gdoc'' [''P'']]
     [(Some ''a.gdoc'', Some ''hello''), (Some ''other'', Some ''bye'')] =
   Inr [(mk_file ''X1'' ''a.gdoc'' [''P''])\<lparr>content := Some (Some ''hello'')\<rparr>,
        mk_file ''X2'' ''b.gdoc'' [''P'']]"
  using add_contents_to_files_frame
    [of "[mk_file ''X1'' ''a.gdoc'' [''P''], mk_file ''X2'' ''b.gdoc'' [''P'']]"
        "[(Some ''a.gdoc'', Some ''hello''), (Some ''other'', Some ''bye'')]"]
  by (simp add: mk_file_def empty_dict_def)

section \<open>Properties of reading contents\<close>


lemma read_multiple_files_Cons:
  "read_multiple_files svc (fid # rest) log =
     ((case fst (read_file_content svc fid log) of Inl e \<Rightarrow> (None, None) | Inr t \<Rightarrow> t) #
        fst (read_multiple_files svc rest (snd (read_file_content svc fid log))),
      snd (read_multiple_files svc rest (snd (read_file_content svc fid log))))"
  by (simp split: prod.splits)

lemma read_multiple_files_length:
  "length (fst (read_multiple_files svc ids log)) = length ids"
  by (induction ids arbitrary: log) (simp_all only: read_multiple_files_Cons read_multiple_files.simps(1) fst_conv list.size)

lemma read_multiple_files_nth:
  "i < length ids \<Longrightarrow>
   fst (read_multiple_files svc ids log) ! i =
     (case fst (read_file_content svc (ids ! i) (snd (read_multiple_files svc (take i ids) log))) of
        Inl e \<Rightarrow> (None, None) | Inr t \<Rightarrow> t)"
proof (induction ids arbitrary: log i)
  case Nil
  then show ?case by simp
next
  case (Cons a ids)
  show ?case
  proof (cases i)
    case 0
    then show ?thesis by (simp only: read_multiple_files_Cons) simp
  next
    case (Suc j)
    with Cons.prems have "j < length ids" by simp
    from Cons.IH [OF this] Suc show ?thesis
      by (simp only: read_multiple_files_Cons take_Suc_Cons nth_Cons_Suc fst_conv snd_conv)
  qed
qed



text \<open>
  The export of the spreadsheet \<open>S1\<close> fails with \<^verbatim>\<open>HttpError\<close>: its content is not retrieved,
  and the tuple at its position is its name with \<^verbatim>\<open>None\<close>, not \<^verbatim>\<open>(None, None)\<close>.
\<close>

theorem read_multiple_files_export_failure:
  "fst (read_multiple_files reader_service [''S1''] []) = [(Some ''table'', None)] \<and>
   export_media reader_service [FilesGet ''S1''] ''S1'' ''text/csv'' = Inl HttpError"
  by (simp add: reader_service_def read_file_content_def get_file_metadata_def truthy_dict_def
        read_google_sheet_def read_export_def mk_meta_def empty_dict_def)

lemma read_file_content_no_content:
  assumes "files_get svc log fid = Inr m" and "m \<noteq> empty_dict"
    and "mimeType m = Some ''application/vnd.google-apps.document'' \<and>
           export_media svc (log @ [FilesGet fid]) fid ''text/plain'' = Inl HttpError \<or>
         mimeType m = Some ''application/vnd.google-apps.spreadsheet'' \<and>
           export_media svc (log @ [FilesGet fid]) fid ''text/csv'' = Inl HttpError \<or>
         mimeType m \<noteq> Some ''application/vnd.google-apps.document'' \<and>
           mimeType m \<noteq> Some ''application/vnd.google-apps.spreadsheet''"
  shows "fst (read_file_content svc fid log) =
         Inr (Some (case name m of None \<Rightarrow> ''Unknown'' | Some n \<Rightarrow> n), None)"
proof -
  from assms(1,2) have meta: "get_file_metadata svc fid log = (Inr (Some m), log @ [FilesGet fid])"
    and truthy: "truthy_dict (Some m)"
    by (simp_all add: get_file_metadata_def truthy_dict_def)
  from assms(3) consider
      (doc) "mimeType m = Some ''application/vnd.google-apps.document''"
            "export_media svc (log @ [FilesGet fid]) fid ''text/plain'' = Inl HttpError"
    | (sheet) "mimeType m = Some ''application/vnd.google-apps.spreadsheet''"
              "export_media svc (log @ [FilesGet fid]) fid ''text/csv'' = Inl HttpError"
    | (other) "mimeType m \<noteq> Some ''application/vnd.google-apps.document''"
              "mimeType m \<noteq> Some ''application/vnd.google-apps.spreadsheet''"
    by blast
  then show ?thesis
  proof cases
    case doc
    then show ?thesis
      by (simp add: read_file_content_def meta truthy read_google_doc_def read_export_def)
  next
    case sheet
    then show ?thesis
      by (simp add: read_file_content_def meta truthy read_google_sheet_def read_export_def)
  next
    case other
    then show ?thesis
      by (cases "mimeType m") (simp_all add: read_file_content_def meta truthy)
  qed
qed

text \<open>
  C8, as the code has it. \<^verbatim>\<open>read_multiple_files\<close> returns a list as long as \<open>ids\<close>. The
  tuple at position \<open>i\<close> is what \<^verbatim>\<open>read_file_content\<close> returns for \<open>ids ! i\<close>, called after
  the items before it were read, and \<^verbatim>\<open>(None, None)\<close> when that call raises: no exception
  of an item reaches the other items. Where the metadata of the item cannot be retrieved
  (the request raises, or answers with an empty dictionary) the tuple is \<^verbatim>\<open>(None, None)\<close>.
  Where the metadata is retrieved and the content is not (the export of the document or
  of the spreadsheet fails with \<^verbatim>\<open>HttpError\<close>, or the file is of another type) the tuple is
  the name of the file with \<^verbatim>\<open>None\<close>.
\<close>

theorem read_multiple_files_order:
  "length (fst (read_multiple_files svc ids log)) = length ids \<and>
   (\<forall>i<length ids.
      fst (read_multiple_files svc ids log) ! i =
        (case fst (read_file_content svc (ids ! i)
                     (snd (read_multiple_files svc (take i ids) log))) of
           Inl e \<Rightarrow> (None, None)
         | Inr t \<Rightarrow> t) \<and>
      ((\<exists>e. files_get svc (snd (read_multiple_files svc (take i ids) log)) (ids ! i) = Inl e) \<or>
       files_get svc (snd (read_multiple_files svc (take i ids) log)) (ids ! i) = Inr empty_dict
       \<longrightarrow> fst (read_multiple_files svc ids log) ! i = (None, None)) \<and>
      (\<forall>m. files_get svc (snd (read_multiple_files svc (take i ids) log)) (ids ! i) = Inr m \<and>
           m \<noteq> empty_dict \<and>
           (mimeType m = Some ''application/vnd.google-apps.document'' \<and>
              export_media svc (snd (read_multiple_files svc (take i ids) log) @ [FilesGet (ids ! i)])
                (ids ! i) ''text/plain'' = Inl HttpError \<or>
            mimeType m = Some ''application/vnd.google-apps.spreadsheet'' \<and>
              export_media svc (snd (read_multiple_files svc (take i ids) log) @ [FilesGet (ids ! i)])
                (ids ! i) ''text/csv'' = Inl HttpError \<or>
            mimeType m \<noteq> Some ''application/vnd.google-apps.document'' \<and>
              mimeType m \<noteq> Some ''application/vnd.google-apps.spreadsheet'')
           \<longrightarrow> fst (read_multiple_files svc ids log) ! i =
                 (Some (case name m of None \<Rightarrow> ''Unknown'' | Some n \<Rightarrow> n), None)))"
proof (intro conjI allI impI)
  show "length (fst (read_multiple_files svc ids log)) = length ids"
    by (rule read_multiple_files_length)
next
  fix i assume "i < length ids"
  then show "fst (read_multiple_files svc ids log) ! i =
        (case fst (read_file_content svc (ids ! i)
                     (snd (read_multiple_files svc (take i ids) log))) of
           Inl e \<Rightarrow> (None, None)
         | Inr t \<Rightarrow> t)"
    by (rule read_multiple_files_nth)
next
  fix i
  let ?l = "snd (read_multiple_files svc (take i ids) log)"
  assume i: "i < length ids"
    and fail: "(\<exists>e. files_get svc ?l (ids ! i) = Inl e) \<or> files_get svc ?l (ids ! i) = Inr empty_dict"
  have "(case fst (read_file_content svc (ids ! i) ?l) of Inl e \<Rightarrow> (None, None) | Inr t \<Rightarrow> t)
        = (None, None)"
    using fail
    by (auto simp: read_file_content_def get_file_metadata_def truthy_dict_def)
  with read_multiple_files_nth [OF i, of svc log]
  show "fst (read_multiple_files svc ids log) ! i = (None, None)" by simp
next
  fix i m
  let ?l = "snd (read_multiple_files svc (take i ids) log)"
  assume i: "i < length ids"
    and a: "files_get svc ?l (ids ! i) = Inr m \<and> m \<noteq> empty_dict \<and>
           (mimeType m = Some ''application/vnd.google-apps.document'' \<and>
              export_media svc (?l @ [FilesGet (ids ! i)]) (ids ! i) ''text/plain'' = Inl HttpError \<or>
            mimeType m = Some ''application/vnd.google-apps.spreadsheet'' \<and>
              export_media svc (?l @ [FilesGet (ids ! i)]) (ids ! i) ''text/csv'' = Inl HttpError \<or>
            mimeType m \<noteq> Some ''application/vnd.google-apps.document'' \<and>
              mimeType m \<noteq> Some ''application/vnd.google-apps.spreadsheet'')"
  from a have "fst (read_file_content svc (ids ! i) ?l) =
         Inr (Some (case name m of None \<Rightarrow> ''Unknown'' | Some n \<Rightarrow> n), None)"
    by (intro read_file_content_no_content) simp_all
  with read_multiple_files_nth [OF i, of svc log]
  show "fst (read_multiple_files svc ids log) ! i =
          (Some (case name m of None \<Rightarrow> ''Unknown'' | Some n \<Rightarrow> n), None)" by simp
qed

theorem read_multiple_files_order_witness:
  "fst (read_multiple_files reader_service [''D1'', ''gone'', ''E1'', ''S1''] []) =
     [(Some ''notes'', Some ''hello''), (None, None), (None, None), (Some ''table'', None)] \<and>
   length (fst (read_multiple_files reader_service [''D1'', ''gone'', ''E1'', ''S1''] [])) =
     length [''D1'', ''gone'', ''E1'', ''S1'']"
  using read_multiple_files_order [of reader_service "[''D1'', ''gone'', ''E1'', ''S1'']" "[]"]
  by (simp add: reader_service_def read_file_content_def get_file_metadata_def truthy_dict_def
        read_google_doc_def read_google_sheet_def read_export_def mk_meta_def empty_dict_def)

section \<open>Properties of the search\<close>

lemma token_at_Suc:
  "token_at t (r # rs) (Suc i) = token_at (nextPageToken r) rs i"
  by (cases i) (simp_all add: token_at_def)

lemma token_at_0: "token_at t rs 0 = t"
  by (simp add: token_at_def)

lemma requests_0: "requests q t rs 0 = []"
  by (simp add: requests_def)

lemma requests_Suc:
  "requests q t (r # rs) (Suc k) = FilesList q t # requests q (nextPageToken r) rs k"
proof -
  have "[0..<Suc k] = 0 # map Suc [0..<k]"
    by (simp add: upt_conv_Cons map_Suc_upt del: upt_Suc)
  then show ?thesis
    by (simp add: requests_def token_at_Suc token_at_0 comp_def del: upt_Suc)
qed

lemma requests_1: "requests q t rs (Suc 0) = [FilesList q t]"
  by (simp add: requests_def token_at_def)

lemma search_pages_run:
  assumes "\<forall>i<length rs.
             files_list svc (log @ requests q t rs i) q (token_at t rs i) = Inr (rs ! i) \<and>
             truthy_str (nextPageToken (rs ! i))"
    and "length rs < n"
  shows "search_pages n svc q results t log =
         (case files_list svc (log @ requests q t rs (length rs)) q (token_at t rs (length rs)) of
            Inl e \<Rightarrow> Some (results @ concat (map files_of rs), log @ requests q t rs (Suc (length rs)))
          | Inr r \<Rightarrow>
              if \<not> truthy_str (nextPageToken r)
              then Some (results @ concat (map files_of rs) @ files_of r,
                         log @ requests q t rs (Suc (length rs)))
              else search_pages (n - Suc (length rs)) svc q
                     (results @ concat (map files_of rs) @ files_of r) (nextPageToken r)
                     (log @ requests q t rs (Suc (length rs))))"
  using assms
proof (induction rs arbitrary: n results t log)
  case Nil
  then obtain m where n: "n = Suc m" by (cases n) auto
  show ?case
    by (simp add: n requests_0 requests_1 token_at_0 split: sum.splits)
next
  case (Cons r rs)
  then obtain m where n: "n = Suc m" and m: "length rs < m" by (cases n) auto
  from Cons.prems(1) have first: "files_list svc log q t = Inr r" "truthy_str (nextPageToken r)"
    by (auto simp: requests_0 token_at_0 dest: spec [of _ 0])
  have rest: "\<forall>i<length rs.
       files_list svc ((log @ [FilesList q t]) @ requests q (nextPageToken r) rs i) q
         (token_at (nextPageToken r) rs i) = Inr (rs ! i) \<and>
       truthy_str (nextPageToken (rs ! i))"
  proof (intro allI impI)
    fix i assume "i < length rs"
    then have "Suc i < length (r # rs)" by simp
    with Cons.prems(1) have
      "files_list svc (log @ requests q t (r # rs) (Suc i)) q (token_at t (r # rs) (Suc i)) =
         Inr ((r # rs) ! Suc i) \<and> truthy_str (nextPageToken ((r # rs) ! Suc i))"
      by blast
    then show "files_list svc ((log @ [FilesList q t]) @ requests q (nextPageToken r) rs i) q
         (token_at (nextPageToken r) rs i) = Inr (rs ! i) \<and>
       truthy_str (nextPageToken (rs ! i))"
      by (simp add: requests_Suc token_at_Suc)
  qed
  show ?case
    using Cons.IH [OF rest m, of "results @ files_of r"] first
    by (simp add: n requests_Suc token_at_Suc split: sum.splits)
qed


text \<open>
  C7. Let the first requests of \<^verbatim>\<open>execute_search\<close> be answered by the pages \<open>rs\<close>, each
  with a continuation token, and let the fuel allow one more request. If that request
  fails, \<^verbatim>\<open>execute_search\<close> returns the records of the pages \<open>rs\<close>, in order, and nothing
  else; if it is answered by a page without a continuation token, \<^verbatim>\<open>execute_search\<close>
  returns the records of \<open>rs\<close> followed by those of that page and makes no further
  request. The result of the model is a list in every case: the only exceptions of the
  function are those of its requests, and they are caught.
\<close>

theorem execute_search_pages:
  assumes "\<forall>i<length rs.
             files_list svc (log @ requests q None rs i) q (token_at None rs i) = Inr (rs ! i) \<and>
             truthy_str (nextPageToken (rs ! i))"
    and "length rs < n"
  shows "(\<forall>e. files_list svc (log @ requests q None rs (length rs)) q
                (token_at None rs (length rs)) = Inl e \<longrightarrow>
              execute_search n svc q log =
                Some (concat (map files_of rs), log @ requests q None rs (Suc (length rs)))) \<and>
         (\<forall>r. files_list svc (log @ requests q None rs (length rs)) q
                (token_at None rs (length rs)) = Inr r \<and> \<not> truthy_str (nextPageToken r) \<longrightarrow>
              execute_search n svc q log =
                Some (concat (map files_of rs) @ files_of r,
                      log @ requests q None rs (Suc (length rs))))"
  using search_pages_run [OF assms, of "[]"]
  by (auto simp: execute_search_def)

theorem execute_search_pages_witness:
  "execute_search 5 paged_service ''flaky'' [] =
     Some ([mk_file ''X1'' ''a'' [''P''], mk_file ''X2'' ''b'' [''P'']],
           [FilesList ''flaky'' None, FilesList ''flaky'' (Some ''t1''),
            FilesList ''flaky'' (Some ''t2'')]) \<and>
   execute_search 5 paged_service ''steady'' [] =
     Some ([mk_file ''X1'' ''a'' [''P''], mk_file ''X2'' ''b'' [''P''], mk_file ''X3'' ''c'' [''P'']],
           [FilesList ''steady'' None, FilesList ''steady'' (Some ''t1''),
            FilesList ''steady'' (Some ''t2'')])"
proof -
  let ?rs = "[page [mk_file ''X1'' ''a'' [''P'']] (Some ''t1''),
              page [mk_file ''X2'' ''b'' [''P'']] (Some ''t2'')]"
  have pages: "\<forall>i<length ?rs.
      files_list paged_service ([] @ requests q None ?rs i) q (token_at None ?rs i) = Inr (?rs ! i) \<and>
      truthy_str (nextPageToken (?rs ! i))" for q
    by (simp add: All_less_Suc requests_def paged_service_def token_at_def page_def truthy_str_def)
  have fuel: "length ?rs < 5" by simp
  from execute_search_pages [OF pages fuel, of "''flaky''"]
       execute_search_pages [OF pages fuel, of "''steady''"]
  show ?thesis
    by (simp add: paged_service_def token_at_def requests_def page_def truthy_str_def files_of_def
          upt_rec)
qed

section \<open>Properties of the folder labels\<close>

lemma lookups_append: "lookups p (xs @ ys) = lookups p xs + lookups p ys"
  by (simp add: lookups_def)

lemma get_file_metadata_log:
  "snd (get_file_metadata svc fid log) = log @ [FilesGet fid]"
  by (simp add: get_file_metadata_def split: sum.splits)

lemma read_export_log:
  "snd (read_export svc fid mime log) = log @ [ExportMedia fid mime]"
  by (simp add: read_export_def split: sum.splits)

lemma read_file_content_log:
  "snd (read_file_content svc fid log) = log @ [FilesGet fid] \<or>
   (\<exists>mime. snd (read_file_content svc fid log) = log @ [FilesGet fid, ExportMedia fid mime])"
proof -
  obtain r log1 where g: "get_file_metadata svc fid log = (r, log1)"
    by (cases "get_file_metadata svc fid log")
  with get_file_metadata_log [of svc fid log] have log1: "log1 = log @ [FilesGet fid]" by simp
  show ?thesis
  proof (cases r)
    case (Inl e)
    with g log1 show ?thesis by (simp add: read_file_content_def)
  next
    case (Inr metadata)
    obtain d l2 where d: "read_export svc fid ''text/plain'' log1 = (d, l2)"
      by (cases "read_export svc fid ''text/plain'' log1")
    obtain c l3 where c: "read_export svc fid ''text/csv'' log1 = (c, l3)"
      by (cases "read_export svc fid ''text/csv'' log1")
    from d read_export_log [of svc fid "''text/plain''" log1] log1
    have l2: "l2 = log @ [FilesGet fid, ExportMedia fid ''text/plain'']" by simp
    from c read_export_log [of svc fid "''text/csv''" log1] log1
    have l3: "l3 = log @ [FilesGet fid, ExportMedia fid ''text/csv'']" by simp
    show ?thesis
      using g Inr log1 d c l2 l3
      by (cases d; cases c)
         (simp_all add: read_file_content_def read_google_doc_def read_google_sheet_def Let_def)
  qed
qed

lemma read_file_content_lookups:
  "lookups p (snd (read_file_content svc fid log)) = lookups p log + (if p = fid then 1 else 0)"
  using read_file_content_log [of svc fid log]
  by (auto simp: lookups_def)

lemma names_loop_lookups:
  "names_loop svc ids m log = (Inr m', log') \<Longrightarrow>
   lookups p log' = lookups p log + count_list ids p \<and> dom m' = dom m \<union> set ids"
proof (induction ids arbitrary: m log)
  case Nil
  then show ?case by simp
next
  case (Cons a ids)
  obtain r log1 where r: "read_file_content svc a log = (r, log1)"
    by (cases "read_file_content svc a log")
  with Cons.prems obtain t where t: "r = Inr t"
    and rest: "names_loop svc ids (m(a \<mapsto> fst t)) log1 = (Inr m', log')"
    by (cases r) auto
  have "lookups p log1 = lookups p log + (if p = a then 1 else 0)"
    using read_file_content_lookups [of p svc a log] r by simp
  with Cons.IH [OF rest] show ?case by auto
qed

lemma parents_ids_loop_result:
  "parents_ids_loop fs acc = Inr ps \<Longrightarrow>
   count_list ps p = length (filter (\<lambda>f. first_parent f = Some p) fs) + count_list acc p \<and>
   set ps = {q. \<exists>f\<in>set fs. first_parent f = Some q} \<union> set acc"
proof (induction fs arbitrary: acc)
  case Nil
  then show ?case by simp
next
  case (Cons f fs)
  from Cons.prems obtain q qs where q: "parents f = Some (q # qs)"
    and rest: "parents_ids_loop fs (q # acc) = Inr ps"
    by (auto split: option.splits list.splits)
  have fp: "first_parent f = Some q" using q by (simp add: first_parent_def)
  from Cons.IH [OF rest] fp show ?case by auto
qed


lemma distinct_count_list:
  "distinct xs \<Longrightarrow> x \<in> set xs \<Longrightarrow> count_list xs x = 1"
  by (induction xs) auto

lemma get_idmap_lookups:
  assumes "get_idmap svc fs log = (Inr m, log')"
  shows "lookups p log' = lookups p log + length (filter (\<lambda>f. first_parent f = Some p) fs) \<and>
         dom m = {q. \<exists>f\<in>set fs. first_parent f = Some q}"
proof -
  from assms obtain ps where ps: "parents_ids_loop fs [] = Inr ps"
    and run: "names_loop svc ps Map.empty log = (Inr m, log')"
    by (auto simp: get_idmap_def split: sum.splits)
  from parents_ids_loop_result [OF ps, of p] names_loop_lookups [OF run, of p]
  show ?thesis by simp
qed

text \<open>
  Two records with the same parent folder: \<^verbatim>\<open>get_idmap\<close> requests the metadata of that
  folder twice.
\<close>

theorem get_idmap_repeats_lookup:
  "snd (get_idmap label_service [mk_file ''X1'' ''a'' [''P''], mk_file ''X2'' ''b'' [''P'']] []) =
     [FilesGet ''P'', FilesGet ''P''] \<and>
   lookups ''P''
     (snd (get_idmap label_service [mk_file ''X1'' ''a'' [''P''], mk_file ''X2'' ''b'' [''P'']] [])) = 2"
  by (simp add: get_idmap_def label_service_def mk_file_def mk_meta_def empty_dict_def
        read_file_content_def get_file_metadata_def truthy_dict_def lookups_def)

text \<open>
  C2, as the code has it. Where \<^verbatim>\<open>get_idmap\<close> returns, it has requested the metadata of a
  folder once for every record whose first parent the folder is (\<^verbatim>\<open>tuple(parents_ids)\<close>
  keeps the repetitions), and the map has one key for each distinct first parent. Where
  \<^verbatim>\<open>map_ids_to_names\<close> returns, it has requested the metadata of an id once for each of its
  occurrences in the list it was given, so exactly once for an id of a list without
  repetitions, as \<^verbatim>\<open>distinct\<close> of the store gives it.
\<close>

theorem idmap_lookups:
  "(get_idmap svc fs log = (Inr m, log') \<longrightarrow>
      lookups p log' = lookups p log + length (filter (\<lambda>f. first_parent f = Some p) fs) \<and>
      dom m = {q. \<exists>f\<in>set fs. first_parent f = Some q}) \<and>
   (map_ids_to_names svc ids log = (Inr m2, log2) \<longrightarrow>
      lookups p log2 = lookups p log + count_list ids p \<and> dom m2 = set ids) \<and>
   (map_ids_to_names svc ids log = (Inr m2, log2) \<and> distinct ids \<and> p \<in> set ids \<longrightarrow>
      lookups p log2 = lookups p log + 1)"
proof (intro conjI impI)
  assume "get_idmap svc fs log = (Inr m, log')"
  from get_idmap_lookups [OF this, of p]
  show "lookups p log' = lookups p log + length (filter (\<lambda>f. first_parent f = Some p) fs)"
    and "dom m = {q. \<exists>f\<in>set fs. first_parent f = Some q}" by simp_all
next
  assume "map_ids_to_names svc ids log = (Inr m2, log2)"
  then have "names_loop svc ids Map.empty log = (Inr m2, log2)"
    by (simp add: map_ids_to_names_def)
  from names_loop_lookups [OF this, of p]
  show "lookups p log2 = lookups p log + count_list ids p" and "dom m2 = set ids" by simp_all
next
  assume a: "map_ids_to_names svc ids log = (Inr m2, log2) \<and> distinct ids \<and> p \<in> set ids"
  then have "names_loop svc ids Map.empty log = (Inr m2, log2)"
    by (simp add: map_ids_to_names_def)
  from names_loop_lookups [OF this, of p] a
  show "lookups p log2 = lookups p log + 1"
    by (simp add: distinct_count_list)
qed

theorem idmap_lookups_witness:
  "get_idmap label_service
     [mk_file ''X1'' ''a'' [''P''], mk_file ''X2'' ''b'' [''P''], mk_file ''X3'' ''c'' [''Q'']] [] =
     (Inr (Map.empty(''Q'' \<mapsto> Some ''jaden'', ''P'' \<mapsto> Some ''irene'')),
      [FilesGet ''Q'', FilesGet ''P'', FilesGet ''P'']) \<and>
   lookups ''P'' [FilesGet ''Q'', FilesGet ''P'', FilesGet ''P''] = 2 \<and>
   map_ids_to_names label_service [''P'', ''Q''] [] =
     (Inr (Map.empty(''P'' \<mapsto> Some ''irene'', ''Q'' \<mapsto> Some ''jaden'')),
      [FilesGet ''P'', FilesGet ''Q'']) \<and>
   lookups ''P'' [FilesGet ''P'', FilesGet ''Q''] = 1"
proof -
  have a: "get_idmap label_service
     [mk_file ''X1'' ''a'' [''P''], mk_file ''X2'' ''b'' [''P''], mk_file ''X3'' ''c'' [''Q'']] [] =
     (Inr (Map.empty(''Q'' \<mapsto> Some ''jaden'', ''P'' \<mapsto> Some ''irene'')),
      [FilesGet ''Q'', FilesGet ''P'', FilesGet ''P''])"
    by (simp add: get_idmap_def label_service_def mk_file_def mk_meta_def empty_dict_def
          read_file_content_def get_file_metadata_def truthy_dict_def)
  have b: "map_ids_to_names label_service [''P'', ''Q''] [] =
     (Inr (Map.empty(''P'' \<mapsto> Some ''irene'', ''Q'' \<mapsto> Some ''jaden'')),
      [FilesGet ''P'', FilesGet ''Q''])"
    by (simp add: map_ids_to_names_def label_service_def mk_meta_def empty_dict_def
          read_file_content_def get_file_metadata_def truthy_dict_def)
  from idmap_lookups [of label_service
      "[mk_file ''X1'' ''a'' [''P''], mk_file ''X2'' ''b'' [''P''], mk_file ''X3'' ''c'' [''Q'']]" "[]"
      "Map.empty(''Q'' \<mapsto> Some ''jaden'', ''P'' \<mapsto> Some ''irene'')"
      "[FilesGet ''Q'', FilesGet ''P'', FilesGet ''P'']" "''P''" "[''P'', ''Q'']"
      "Map.empty(''P'' \<mapsto> Some ''irene'', ''Q'' \<mapsto> Some ''jaden'')"
      "[FilesGet ''P'', FilesGet ''Q'']"] a b
  show ?thesis
    by (simp add: lookups_def first_parent_def mk_file_def empty_dict_def)
qed

section \<open>Properties of the discovery\<close>

lemma example_run:
  "get_files_in_date_range example_env 10 drive_service example_request [] =
     Some (Inr example_files, example_calls)"
  by code_simp


lemma first_seen_Nil: "first_seen [] = []"
  by (simp add: first_seen_def)

lemma first_seen_Cons:
  "first_seen (f # fs) = f # filter (\<lambda>g. file_id g \<noteq> file_id f) (first_seen fs)"
proof -
  have upt: "[0..<length (f # fs)] = 0 # map Suc [0..<length fs]"
    by (simp add: upt_conv_Cons map_Suc_upt del: upt_Suc)
  have cond: "(\<forall>j<Suc i. file_id ((f # fs) ! j) \<noteq> file_id (fs ! i)) \<longleftrightarrow>
              file_id (fs ! i) \<noteq> file_id f \<and> (\<forall>j<i. file_id (fs ! j) \<noteq> file_id (fs ! i))" for i
  proof
    assume a: "\<forall>j<Suc i. file_id ((f # fs) ! j) \<noteq> file_id (fs ! i)"
    have "file_id (fs ! i) \<noteq> file_id f" using a [rule_format, of 0] by auto
    moreover have "\<forall>j<i. file_id (fs ! j) \<noteq> file_id (fs ! i)"
    proof (intro allI impI)
      fix j assume "j < i"
      then show "file_id (fs ! j) \<noteq> file_id (fs ! i)" using a [rule_format, of "Suc j"] by simp
    qed
    ultimately show "file_id (fs ! i) \<noteq> file_id f \<and> (\<forall>j<i. file_id (fs ! j) \<noteq> file_id (fs ! i))"
      by simp
  next
    assume b: "file_id (fs ! i) \<noteq> file_id f \<and> (\<forall>j<i. file_id (fs ! j) \<noteq> file_id (fs ! i))"
    show "\<forall>j<Suc i. file_id ((f # fs) ! j) \<noteq> file_id (fs ! i)"
    proof (intro allI impI)
      fix j assume "j < Suc i"
      then show "file_id ((f # fs) ! j) \<noteq> file_id (fs ! i)"
        using b by (cases j) auto
    qed
  qed
  show ?thesis
    unfolding first_seen_def upt
    by (simp add: filter_map comp_def cond conj_commute del: upt_Suc)
qed

lemma first_seen_subset: "set (first_seen fs) \<subseteq> set fs"
  by (induction fs) (auto simp: first_seen_Nil first_seen_Cons)

lemma first_seen_distinct: "distinct (map file_id (first_seen fs))"
proof (induction fs)
  case Nil
  show ?case by (simp add: first_seen_Nil)
next
  case (Cons f fs)
  then show ?case
    by (auto simp: first_seen_Cons distinct_map_filter)
qed

lemma remove_duplicates_acc:
  "remove_duplicates fs seen acc = Inr u \<Longrightarrow>
   u = acc @ filter (unseen seen) (first_seen fs) \<and> (\<forall>f\<in>set fs. file_id f \<noteq> None)"
proof (induction fs arbitrary: seen acc)
  case Nil
  then show ?case by (simp add: first_seen_Nil)
next
  case (Cons f fs)
  from Cons.prems obtain i where i: "file_id f = Some i"
    by (cases "file_id f") auto
  show ?case
  proof (cases "i \<in> seen")
    case True
    with Cons.prems i have "remove_duplicates fs seen acc = Inr u" by simp
    from Cons.IH [OF this] have u: "u = acc @ filter (unseen seen) (first_seen fs)"
      and ids: "\<forall>f\<in>set fs. file_id f \<noteq> None" by simp_all
    have "filter (unseen seen) (filter (\<lambda>g. file_id g \<noteq> file_id f) (first_seen fs)) =
          filter (unseen seen) (first_seen fs)"
      using True i by (auto simp: unseen_def intro!: filter_cong split: option.splits)
    with u ids i True show ?thesis
      by (simp add: first_seen_Cons unseen_def)
  next
    case False
    with Cons.prems i have "remove_duplicates fs (insert i seen) (acc @ [f]) = Inr u" by simp
    from Cons.IH [OF this] have u: "u = (acc @ [f]) @ filter (unseen (insert i seen)) (first_seen fs)"
      and ids: "\<forall>f\<in>set fs. file_id f \<noteq> None" by simp_all
    have "filter (unseen (insert i seen)) (first_seen fs) =
          filter (unseen seen) (filter (\<lambda>g. file_id g \<noteq> file_id f) (first_seen fs))"
      using i by (auto simp: unseen_def intro!: filter_cong split: option.splits)
    with u ids i False show ?thesis
      by (simp add: first_seen_Cons unseen_def)
  qed
qed

lemma remove_duplicates_first_seen:
  "remove_duplicates fs {} [] = Inr u \<Longrightarrow> u = first_seen fs \<and> (\<forall>f\<in>set fs. file_id f \<noteq> None)"
  using remove_duplicates_acc [of fs "{}" "[]" u]
  by (simp add: unseen_def split: option.splits cong: filter_cong)


lemma filter_by_exclude_keywords_filter:
  "filter_by_exclude_keywords e fs keywords =
   (if truthy_list keywords
    then filter (\<lambda>f. \<not> (\<exists>k\<in>set (the keywords). contains_lowered e k (name_of f))) fs else fs)"
  by (simp add: filter_by_exclude_keywords_def should_exclude_def contains_lowered_def name_of_def
        list_ex_iff)

lemma filter_by_exclude_keywords_subset:
  "set (filter_by_exclude_keywords e fs keywords) \<subseteq> set fs"
  by (simp add: filter_by_exclude_keywords_filter)

lemma filter_by_exclude_keywords_distinct:
  "distinct (map file_id fs) \<Longrightarrow> distinct (map file_id (filter_by_exclude_keywords e fs keywords))"
  by (simp add: filter_by_exclude_keywords_filter distinct_map_filter)

lemma search_in_range_returns:
  assumes "search_in_range e n svc req tf s t log = Some (Inr res, log')"
  shows "res = [] \<or>
         (\<exists>log1 all_results.
            collect_results e n svc req tf s t log1 = Some (all_results, log') \<and>
            (\<forall>f\<in>set all_results. file_id f \<noteq> None) \<and>
            res = filter_by_exclude_keywords e (first_seen all_results) (exclude_keywords req))"
proof -
  define verified where "verified = (if truthy_str (folder_id req)
                          then verify_folder_access svc (the (folder_id req)) log
                          else (None, log))"
  let ?run = "collect_results e n svc req tf s t (snd verified)"
  have unfold: "search_in_range e n svc req tf s t log =
     (if truthy_str (folder_id req) \<and> \<not> truthy_dict (fst verified)
      then Some (Inr [], snd verified)
      else (case ?run of
              None \<Rightarrow> None
            | Some (all_results, log2) \<Rightarrow>
                (case remove_duplicates all_results {} [] of
                   Inl err \<Rightarrow> Some (Inl err, log2)
                 | Inr unique_results \<Rightarrow>
                     Some (Inr (if truthy_list (exclude_keywords req)
                                then filter_by_exclude_keywords e unique_results (exclude_keywords req)
                                else unique_results), log2))))"
    unfolding search_in_range_def verified_def by (simp add: Let_def)
  show ?thesis
  proof (cases "truthy_str (folder_id req) \<and> \<not> truthy_dict (fst verified)")
    case True
    with assms unfold show ?thesis by simp
  next
    case False
    with assms unfold obtain all_results where run: "?run = Some (all_results, log')"
      and rest: "(case remove_duplicates all_results {} [] of
                   Inl err \<Rightarrow> Some (Inl err, log')
                 | Inr unique_results \<Rightarrow>
                     Some (Inr (if truthy_list (exclude_keywords req)
                                then filter_by_exclude_keywords e unique_results (exclude_keywords req)
                                else unique_results), log')) = Some (Inr res, log')"
      by (cases ?run) (auto split: sum.splits)
    from rest obtain u where u: "remove_duplicates all_results {} [] = Inr u"
      and res: "res = (if truthy_list (exclude_keywords req)
                       then filter_by_exclude_keywords e u (exclude_keywords req) else u)"
      by (cases "remove_duplicates all_results {} []") auto
    from remove_duplicates_first_seen [OF u] have "u = first_seen all_results"
      and ids: "\<forall>f\<in>set all_results. file_id f \<noteq> None" by simp_all
    with res have "res = filter_by_exclude_keywords e (first_seen all_results) (exclude_keywords req)"
      by (simp add: filter_by_exclude_keywords_def)
    with run ids show ?thesis by blast
  qed
qed

lemma get_files_in_date_range_search:
  assumes "get_files_in_date_range e n svc req log = Some (Inr res, log')"
  shows "\<exists>tf s t. search_in_range e n svc req tf s t log = Some (Inr res, log')"
proof -
  obtain sd where sd: "parse_date e (start_date req) = Inr sd"
    using assms by (cases "parse_date e (start_date req)") (auto simp: get_files_in_date_range_def)
  obtain ed where ed: "parse_date e (end_date req) = Inr ed"
    using assms sd by (cases "parse_date e (end_date req)") (auto simp: get_files_in_date_range_def)
  from assms show ?thesis
    unfolding get_files_in_date_range_def sd ed by (auto simp: Let_def)
qed

text \<open>
  C1. Where \<^verbatim>\<open>get_files_in_date_range\<close> returns a list, no two records of it have the same
  id (and each has one). The list is empty, or it is made of the merged results of the
  searches over the folders, \<^verbatim>\<open>all_results\<close>: of the records with the same id the first
  one of \<^verbatim>\<open>all_results\<close> is kept and they stay in the order of \<^verbatim>\<open>all_results\<close>, whichever
  folder's search returned them; the excluded names are filtered out of that list.
\<close>

theorem get_files_in_date_range_dedup:
  assumes "get_files_in_date_range e n svc req log = Some (Inr res, log')"
  shows "distinct (map file_id res) \<and> (\<forall>f\<in>set res. file_id f \<noteq> None) \<and>
         (res = [] \<or>
          (\<exists>time_field s t log1 all_results.
             collect_results e n svc req time_field s t log1 = Some (all_results, log') \<and>
             res = filter_by_exclude_keywords e (first_seen all_results) (exclude_keywords req)))"
proof -
  from get_files_in_date_range_search [OF assms] obtain tf s t where
    "search_in_range e n svc req tf s t log = Some (Inr res, log')" by blast
  from search_in_range_returns [OF this]
  consider "res = []"
    | log1 all_results where
        "collect_results e n svc req tf s t log1 = Some (all_results, log')"
        "\<forall>f\<in>set all_results. file_id f \<noteq> None"
        "res = filter_by_exclude_keywords e (first_seen all_results) (exclude_keywords req)"
    by blast
  then show ?thesis
  proof cases
    case 1
    then show ?thesis by simp
  next
    case 2
    have "distinct (map file_id res)"
      unfolding 2(3) by (rule filter_by_exclude_keywords_distinct) (rule first_seen_distinct)
    moreover have "set res \<subseteq> set all_results"
      unfolding 2(3) using filter_by_exclude_keywords_subset first_seen_subset by blast
    with 2(2) have "\<forall>f\<in>set res. file_id f \<noteq> None" by blast
    ultimately show ?thesis using 2(1) 2(3) by blast
  qed
qed

theorem get_files_in_date_range_dedup_witness:
  "get_files_in_date_range example_env 10 drive_service example_request [] =
     Some (Inr example_files, example_calls) \<and>
   distinct (map file_id example_files) \<and>
   first_seen [mk_file ''X1'' ''Report.gdoc'' [''A'', ''B''], mk_file ''X2'' ''Draft Report.gdoc'' [''A''],
               mk_file ''X1'' ''Report.gdoc'' [''A'', ''B''], mk_file ''X3'' ''Notes.gdoc'' [''B'']] =
     example_files"
  using get_files_in_date_range_dedup [OF example_run]
  by (simp add: example_run example_files_def first_seen_Cons first_seen_Nil mk_file_def empty_dict_def)








subsection \<open>Malformed requests\<close>

lemma collect_results_search_type:
  "collect_results e n svc (req\<lparr>search_type := x\<rparr>) tf s t log =
   collect_results e n svc req tf s t log"
  unfolding collect_results_def by (simp split: option.splits prod.splits)

lemma search_in_range_search_type:
  "search_in_range e n svc (req\<lparr>search_type := x\<rparr>) tf s t log =
   search_in_range e n svc req tf s t log"
  unfolding search_in_range_def
  by (simp add: Let_def collect_results_search_type split: option.splits prod.splits sum.splits)

text \<open>
  C6, as the code has it. A start date or an end date given as a string that \<^verbatim>\<open>strptime\<close>
  cannot parse makes \<^verbatim>\<open>get_files_in_date_range\<close> raise the exception of \<^verbatim>\<open>strptime\<close> before
  any call of the service (the calls are as they were). A search type is never rejected:
  every value other than \<^verbatim>\<open>'modified'\<close> is treated as \<^verbatim>\<open>'created'\<close> is.
\<close>

theorem get_files_in_date_range_malformed:
  "(start_date req = DateStr s \<and> strptime e s = Inl err \<longrightarrow>
      get_files_in_date_range e n svc req log = Some (Inl err, log)) \<and>
   (end_date req = DateStr s \<and> strptime e s = Inl err \<and>
    (\<exists>d. parse_date e (start_date req) = Inr d) \<longrightarrow>
      get_files_in_date_range e n svc req log = Some (Inl err, log)) \<and>
   (search_type req \<noteq> ''modified'' \<longrightarrow>
      get_files_in_date_range e n svc req log =
      get_files_in_date_range e n svc (req\<lparr>search_type := ''created''\<rparr>) log)"
proof (intro conjI impI)
  assume "start_date req = DateStr s \<and> strptime e s = Inl err"
  then show "get_files_in_date_range e n svc req log = Some (Inl err, log)"
    by (simp add: get_files_in_date_range_def parse_date_def)
next
  assume "end_date req = DateStr s \<and> strptime e s = Inl err \<and>
          (\<exists>d. parse_date e (start_date req) = Inr d)"
  then show "get_files_in_date_range e n svc req log = Some (Inl err, log)"
    by (auto simp: get_files_in_date_range_def parse_date_def)
next
  assume "search_type req \<noteq> ''modified''"
  then show "get_files_in_date_range e n svc req log =
      get_files_in_date_range e n svc (req\<lparr>search_type := ''created''\<rparr>) log"
    unfolding get_files_in_date_range_def
    by (simp add: Let_def search_in_range_search_type split: sum.splits)
qed

text \<open>The search type \<^verbatim>\<open>'bogus'\<close> is not rejected: the request is answered as the example
  request is, with the same calls of the service.\<close>

theorem search_type_not_rejected:
  "get_files_in_date_range example_env 10 drive_service
     (example_request\<lparr>search_type := ''bogus''\<rparr>) [] =
     Some (Inr example_files, example_calls)"
  by code_simp

theorem get_files_in_date_range_malformed_witness:
  "get_files_in_date_range example_env 10 drive_service
     (example_request\<lparr>start_date := DateStr ''yesterday''\<rparr>) [] = Some (Inl ValueError, []) \<and>
   get_files_in_date_range example_env 10 drive_service
     (example_request\<lparr>end_date := DateStr ''2025-02-30''\<rparr>) [] = Some (Inl ValueError, []) \<and>
   get_files_in_date_range example_env 10 drive_service
     (example_request\<lparr>search_type := ''bogus''\<rparr>) [] =
   get_files_in_date_range example_env 10 drive_service example_request []"
  using
    get_files_in_date_range_malformed
      [of "example_request\<lparr>start_date := DateStr ''yesterday''\<rparr>" "''yesterday''"
          example_env ValueError 10 drive_service "[]"]
    get_files_in_date_range_malformed
      [of "example_request\<lparr>end_date := DateStr ''2025-02-30''\<rparr>" "''2025-02-30''"
          example_env ValueError 10 drive_service "[]"]
    get_files_in_date_range_malformed
      [of "example_request\<lparr>search_type := ''bogus''\<rparr>" "''x''"
          example_env ValueError 10 drive_service "[]"]
  by (simp add: example_request_def example_env_def parse_date_def)

section \<open>Properties of the traversal\<close>









section \<open>Properties of the check of the root folder\<close>









end
